theory Spec2Isabelle
  imports Main
begin

section \<open>Versions (main.go, type Version)\<close>

text \<open>
  The struct \<^verbatim>\<open>Version\<close> of main.go. Go's \<^verbatim>\<open>int\<close> fields are only compared and
  printed, never added or multiplied, so they are modelled as mathematical integers.
  The methods of the struct carry its name as a prefix (\<open>Version_equal\<close> for
  \<^verbatim>\<open>Version.equal\<close>).
\<close>

record Version =
  Major :: int
  Minor :: int
  Patch :: int
  Dev :: bool
  Build :: int
  Commit :: string

text \<open>\<^verbatim>\<open>func (v Version) equal(other Version) bool\<close>\<close>

definition Version_equal :: "Version \<Rightarrow> Version \<Rightarrow> bool" where
  "Version_equal v other =
     (if Dev v \<or> Dev other then
        (if \<not> (Dev v \<and> Dev other) then False
         else Major v = Major other \<and> Minor v = Minor other \<and> Patch v = Patch other
              \<and> Build v = Build other)
      else Major v = Major other \<and> Minor v = Minor other \<and> Patch v = Patch other)"

text \<open>\<^verbatim>\<open>func (v Version) lessThan(other Version) bool\<close>, branch by branch.\<close>

definition Version_lessThan :: "Version \<Rightarrow> Version \<Rightarrow> bool" where
  "Version_lessThan v other =
     (if Major v = Major other then
        (if Minor v = Minor other then
           (if Patch v = Patch other then
              (if Dev v \<and> Dev other then Build v < Build other
               else if Dev v \<and> \<not> Dev other then False
               else if \<not> Dev v \<and> Dev other then True
               else False)
            else Patch v < Patch other)
         else Minor v < Minor other)
      else Major v < Major other)"

text \<open>\<^verbatim>\<open>func (v Version) moreThan(other Version) bool\<close>\<close>

definition Version_moreThan :: "Version \<Rightarrow> Version \<Rightarrow> bool" where
  "Version_moreThan v other = (\<not> Version_lessThan v other)"

section \<open>Failures\<close>

text \<open>
  Go errors that the program returns or passes to \<^verbatim>\<open>panic\<close>:
  \<^verbatim>\<open>errors.New("Failed to parse version: ...")\<close>, the \<^verbatim>\<open>*strconv.NumError\<close> of
  \<^verbatim>\<open>strconv.ParseInt\<close> (syntax or range), and the errors of the I/O calls.
\<close>

datatype num_err = ErrSyntax | ErrRange

datatype error =
    Failed_to_parse string
  | NumError string num_err
  | IO_error string

text \<open>
  How a call can end other than by returning: a run-time panic (index or slice bounds out of
  range), an explicit \<^verbatim>\<open>panic(err)\<close> or \<^verbatim>\<open>panic("...")\<close>, or \<^verbatim>\<open>os.Exit(code)\<close>.
\<close>

datatype panic =
    Index_out_of_range nat nat
  | Slice_bounds_out_of_range nat nat
  | Panic_error error
  | Panic_string string

datatype 'a outcome = Return 'a | Panic panic | Exit nat

fun obind :: "'a outcome \<Rightarrow> ('a \<Rightarrow> 'b outcome) \<Rightarrow> 'b outcome" where
  "obind (Return x) f = f x"
| "obind (Panic p) f = Panic p"
| "obind (Exit n) f = Exit n"

section \<open>The library calls the program makes on strings\<close>

text \<open>
  \<^verbatim>\<open>strings.Split(s, sep)\<close> for a separator of one byte, which is how the program calls it
  (\<^verbatim>\<open>"-"\<close>, \<^verbatim>\<open>"."\<close>, \<^verbatim>\<open>"+"\<close>, \<^verbatim>\<open>"/"\<close>): the pieces between the separators, in order;
  a string without the separator gives the one-element list of itself, also when empty.
\<close>

fun Split :: "string \<Rightarrow> char \<Rightarrow> string list" where
  "Split [] sep = [[]]"
| "Split (c # cs) sep =
     (if c = sep then [] # Split cs sep
      else (case Split cs sep of [] \<Rightarrow> [[c]] | x # xs \<Rightarrow> (c # x) # xs))"

text \<open>\<^verbatim>\<open>strings.Join(elems, sep)\<close>\<close>

fun Join :: "string list \<Rightarrow> string \<Rightarrow> string" where
  "Join [] sep = []"
| "Join [x] sep = x"
| "Join (x # y # ys) sep = x @ sep @ Join (y # ys) sep"

text \<open>\<^verbatim>\<open>strings.HasPrefix(s, prefix)\<close>\<close>

definition HasPrefix :: "string \<Rightarrow> string \<Rightarrow> bool" where
  "HasPrefix s pre = (length pre \<le> length s \<and> take (length pre) s = pre)"

text \<open>
  \<^verbatim>\<open>path.Ext(p)\<close>: the suffix beginning at the last dot of the last slash-separated
  element of \<open>p\<close>, empty when there is no dot. The library scans backwards from the end
  and stops at a slash; \<open>Ext_scan\<close> walks the reversed string and carries what it has
  passed.
\<close>

fun Ext_scan :: "string \<Rightarrow> string \<Rightarrow> string" where
  "Ext_scan [] acc = []"
| "Ext_scan (c # cs) acc =
     (if c = CHR ''/'' then []
      else if c = CHR ''.'' then c # acc
      else Ext_scan cs (c # acc))"

definition Ext :: "string \<Rightarrow> string" where
  "Ext p = Ext_scan (rev p) []"

text \<open>
  \<^verbatim>\<open>fmt.Sprintf("%d", n)\<close>: the decimal digits of \<open>n\<close>, most significant first, after a
  minus sign when \<open>n\<close> is negative.
\<close>

definition digit_char :: "int \<Rightarrow> char" where
  "digit_char d = char_of (of_char CHR ''0'' + d)"

function digits :: "int \<Rightarrow> string" where
  "digits n = (if n < 10 then [digit_char n] else digits (n div 10) @ [digit_char (n mod 10)])"
  by pat_completeness auto
termination
  by (relation "measure nat") auto

declare digits.simps [simp del]

definition fmt_d :: "int \<Rightarrow> string" where
  "fmt_d n = (if n < 0 then CHR ''-'' # digits (- n) else digits n)"

text \<open>
  \<^verbatim>\<open>strconv.ParseInt(s, 10, 32)\<close>. The library returns a value together with the error:
  0 with a syntax error, the nearest 32-bit bound with a range error. \<open>ParseUint_loop\<close>
  is the digit loop of \<^verbatim>\<open>ParseUint\<close> for base 10 and bit size 32, which leaves at the
  first byte that is not a decimal digit (a letter is a digit value of at least 10, refused
  for the base) and at the first value above \<open>2^32 - 1\<close>; the loop's other test,
  \<^verbatim>\<open>n >= cutoff\<close> with cutoff \<open>2^64 div 10 + 1\<close>, cannot fire below that bound.
  The accumulator is never negative and is kept as an integer.
\<close>

definition digit_value :: "char \<Rightarrow> int option" where
  "digit_value c =
     (let b = (of_char c :: int)
      in if of_char CHR ''0'' \<le> b \<and> b \<le> of_char CHR ''9''
         then Some (b - of_char CHR ''0'') else None)"

fun ParseUint_loop :: "int \<Rightarrow> string \<Rightarrow> int \<times> num_err option" where
  "ParseUint_loop n [] = (n, None)"
| "ParseUint_loop n (c # cs) =
     (case digit_value c of
        None \<Rightarrow> (0, Some ErrSyntax)
      | Some d \<Rightarrow>
          (let n1 = n * 10 + d
           in if n1 > 2 ^ 32 - 1 then (2 ^ 32 - 1, Some ErrRange) else ParseUint_loop n1 cs))"

definition ParseUint32 :: "string \<Rightarrow> int \<times> num_err option" where
  "ParseUint32 s = (if s = [] then (0, Some ErrSyntax) else ParseUint_loop 0 s)"

definition ParseInt32 :: "string \<Rightarrow> int \<times> error option" where
  "ParseInt32 s0 =
     (if s0 = [] then (0, Some (NumError s0 ErrSyntax))
      else
        let neg = (hd s0 = CHR ''-'');
            s = (if hd s0 = CHR ''+'' \<or> hd s0 = CHR ''-'' then tl s0 else s0);
            (un, err) = ParseUint32 s
        in if err = Some ErrSyntax then (0, Some (NumError s0 ErrSyntax))
           else if \<not> neg \<and> un \<ge> 2 ^ 31 then (2 ^ 31 - 1, Some (NumError s0 ErrRange))
           else if neg \<and> un > 2 ^ 31 then (- (2 ^ 31), Some (NumError s0 ErrRange))
           else (if neg then - un else un, None))"

section \<open>Displaying and parsing a version\<close>

text \<open>\<^verbatim>\<open>func (v Version) String() string\<close>\<close>

definition Version_String :: "Version \<Rightarrow> string" where
  "Version_String v =
     (let s = fmt_d (Major v) @ ''.'' @ fmt_d (Minor v) @ ''.'' @ fmt_d (Patch v)
      in if Dev v then s @ ''-dev-'' @ fmt_d (Build v) else s)"

text \<open>
  \<^verbatim>\<open>func ParseVersion(v string) (*Version, error)\<close>. The three \<^verbatim>\<open>err\<close> results of the
  numeric segments are assigned one after the other to the same variable and tested once,
  after the third; the model binds them in the same way. Indexing \<^verbatim>\<open>[1]\<close> into a
  split of one element is Go's run-time panic. The first element of a split always exists.
\<close>

definition ParseVersion :: "string \<Rightarrow> (error + Version) outcome" where
  "ParseVersion v =
     (let sp = Split v CHR ''-'';
          sp2 = Split (hd sp) CHR ''.''
      in if length sp2 \<noteq> 3 then Return (Inl (Failed_to_parse v))
         else
           let (major, err) = ParseInt32 (sp2 ! 0);
               (minor, err) = ParseInt32 (sp2 ! 1);
               (patch, err) = ParseInt32 (sp2 ! 2)
           in case err of
                Some e \<Rightarrow> Return (Inl e)
              | None \<Rightarrow>
                  (let result = \<lparr>Major = major, Minor = minor, Patch = patch,
                                  Dev = False, Build = 0, Commit = []\<rparr>
                   in if length sp > 1 then
                        (let result = result\<lparr>Dev := True\<rparr>;
                             t = Split (sp ! 1) CHR ''.''
                         in if length t \<le> 1 then Panic (Index_out_of_range 1 (length t))
                            else
                              let sp2 = Split (t ! 1) CHR ''+'';
                                  (build, err) = ParseInt32 (hd sp2)
                              in case err of
                                   Some e \<Rightarrow> Return (Inl e)
                                 | None \<Rightarrow>
                                     (if length sp2 \<le> 1
                                      then Panic (Index_out_of_range 1 (length sp2))
                                      else Return (Inr (result\<lparr>Build := build,
                                                               Commit := sp2 ! 1\<rparr>))))
                      else Return (Inr result)))"

section \<open>Items and the remote index (main.go, types Item, ZigIndexEntry, ZigIndexFileEntry)\<close>

record Item =
  Version :: Version
  Downloaded :: bool
  Current :: bool
  Indexed :: bool
  Master :: bool
  LocalPath :: string
  RemoteUrl :: string

text \<open>The zero value \<^verbatim>\<open>Item{}\<close>.\<close>

definition Item_zero :: Item where
  "Item_zero =
     \<lparr>Version = \<lparr>Major = 0, Minor = 0, Patch = 0, Dev = False, Build = 0, Commit = []\<rparr>,
      Downloaded = False, Current = False, Indexed = False, Master = False,
      LocalPath = [], RemoteUrl = []\<rparr>"

record ZigIndexFileEntry =
  Tarball :: string
  Shasum :: string
  Size :: string

text \<open>
  One record of the catalog. A pointer field that is \<^verbatim>\<open>nil\<close> (the JSON object has no such
  member) is \<open>None\<close>. The record's own field \<^verbatim>\<open>Version\<close> is the string of the JSON member
  \<^verbatim>\<open>version\<close>, empty when the member is absent.
\<close>

record ZigIndexEntry =
  Version :: string
  Date :: string
  Docs :: string
  StdDocs :: string
  Src :: "ZigIndexFileEntry option"
  Bootstrap :: "ZigIndexFileEntry option"
  X86_64_macos :: "ZigIndexFileEntry option"
  Aarch64_macos :: "ZigIndexFileEntry option"
  X86_64_linux :: "ZigIndexFileEntry option"
  Aarch64_linux :: "ZigIndexFileEntry option"
  Riscv64_linux :: "ZigIndexFileEntry option"
  Powerpc64le_linux :: "ZigIndexFileEntry option"
  Powerpc_linux :: "ZigIndexFileEntry option"
  X86_linux :: "ZigIndexFileEntry option"
  X86_64_windows :: "ZigIndexFileEntry option"
  Aarch64_windows :: "ZigIndexFileEntry option"
  X86_windows :: "ZigIndexFileEntry option"

text \<open>An entry of a directory listing (\<^verbatim>\<open>os.DirEntry\<close>): the program reads its name and kind.\<close>

record DirEntry =
  Name :: string
  IsDir :: bool

section \<open>What the program reads from outside\<close>

text \<open>
  Everything \<^verbatim>\<open>run\<close> obtains from the machine and the network, as one value:
  \<^verbatim>\<open>runtime.GOOS\<close> and \<^verbatim>\<open>runtime.GOARCH\<close>, the result of \<^verbatim>\<open>os.UserHomeDir()\<close>, the
  result of \<^verbatim>\<open>FetchIndex()\<close> (the decoded catalog as the pairs of key and record in the order
  in which the \<^verbatim>\<open>range\<close> over the map visits them, which Go leaves unspecified), the result
  of \<^verbatim>\<open>os.ReadDir\<close> for each path, and the results of the HTTP request and of writing a
  file. Two library functions are carried along instead of being modelled:
  \<^verbatim>\<open>path.Join\<close> (joining and cleaning path elements) and \<^verbatim>\<open>sort.Slice\<close> (which receives the
  comparison and returns the slice rearranged).
\<close>

record world =
  GOOS :: string
  GOARCH :: string
  UserHomeDir :: "error + string"
  path_Join :: "string list \<Rightarrow> string"
  FetchIndex :: "error + (string \<times> ZigIndexEntry) list"
  ReadDir :: "string \<Rightarrow> error + DirEntry list"
  sort_Slice :: "(Item \<Rightarrow> Item \<Rightarrow> bool) \<Rightarrow> Item list \<Rightarrow> Item list"
  http_Get :: "string \<Rightarrow> error + string"
  write_file :: "string \<Rightarrow> string \<Rightarrow> error option"

text \<open>\<^verbatim>\<open>func getHostOs() string\<close>\<close>

definition getHostOs :: "world \<Rightarrow> string outcome" where
  "getHostOs w =
     (let os = GOOS w
      in if os = ''windows'' then Return os
         else if os = ''darwin'' then Return ''macos''
         else if os = ''linux'' then Return os
         else Panic (Panic_string ''Invalid os!''))"

text \<open>\<^verbatim>\<open>func getHostArch() string\<close>\<close>

definition getHostArch :: "world \<Rightarrow> string outcome" where
  "getHostArch w =
     (let arch = GOARCH w
      in if arch = ''386'' then Return ''x86''
         else if arch = ''amd64'' then Return ''x86-64''
         else if arch = ''arm64'' then Return ''aarch64''
         else Panic (Panic_string ''Invalid arch!''))"

text \<open>\<^verbatim>\<open>func localDirPath(p ...string) string\<close>\<close>

definition localDirPath :: "world \<Rightarrow> string list \<Rightarrow> string outcome" where
  "localDirPath w p =
     (case UserHomeDir w of
        Inl err \<Rightarrow> Panic (Panic_error err)
      | Inr home \<Rightarrow> Return (path_Join w ([home, ''.zig-toolchain''] @ p)))"

text \<open>\<^verbatim>\<open>func localTarballPathFromUrl(url string) string\<close>\<close>

definition localTarballPathFromUrl :: "world \<Rightarrow> string \<Rightarrow> string outcome" where
  "localTarballPathFromUrl w url =
     (let sp = Split url CHR ''/'';
          filename = last sp
      in localDirPath w [''tarballs'', filename])"

text \<open>
  \<^verbatim>\<open>func (z *ZigIndexEntry) GetFileEntryForHost() *ZigIndexFileEntry\<close>. A pair of operating
  system and architecture that no inner \<^verbatim>\<open>case\<close> matches falls out of both switches to the
  panic at the end.
\<close>

definition GetFileEntryForHost :: "world \<Rightarrow> ZigIndexEntry \<Rightarrow> ZigIndexFileEntry option outcome" where
  "GetFileEntryForHost w z =
     obind (getHostOs w) (\<lambda>os. obind (getHostArch w) (\<lambda>arch.
       if os = ''macos'' \<and> arch = ''aarch64'' then Return (Aarch64_macos z)
       else if os = ''macos'' \<and> arch = ''x86-64'' then Return (X86_64_macos z)
       else if os = ''linux'' \<and> arch = ''aarch64'' then Return (Aarch64_linux z)
       else if os = ''linux'' \<and> arch = ''x86-64'' then Return (X86_64_linux z)
       else if os = ''linux'' \<and> arch = ''x86'' then Return (X86_linux z)
       else if os = ''windows'' \<and> arch = ''aarch64'' then Return (Aarch64_windows z)
       else if os = ''windows'' \<and> arch = ''x86-64'' then Return (X86_64_windows z)
       else if os = ''windows'' \<and> arch = ''x86'' then Return (X86_windows z)
       else Panic (Panic_string ''invalid os/arch!'')))"

text \<open>
  \<^verbatim>\<open>func (app *AppState) GetItemByVersion(v Version) (*Item, bool)\<close>. The pointer it returns
  is the address of an element of \<^verbatim>\<open>app.Items\<close>; the model returns the element's index, and a
  write through the pointer is an update of the list at that index.
\<close>

fun GetItemByVersion :: "Item list \<Rightarrow> Version \<Rightarrow> nat option" where
  "GetItemByVersion [] v = None"
| "GetItemByVersion (item # rest) v =
     (if Version_equal (Item.Version item) v then Some 0
      else map_option Suc (GetItemByVersion rest v))"

section \<open>Reconciliation (main.go, AppState.run, lines 549 to 663)\<close>

text \<open>
  The body of the loop over the catalog (``Parse remote index items''), for the key \<open>k\<close>
  and the record \<open>v\<close>: \<open>None\<close> is the \<^verbatim>\<open>continue\<close> of a record without a descriptor for the
  host, \<open>Some item\<close> the item that the loop appends.
\<close>

definition index_item :: "world \<Rightarrow> string \<Rightarrow> ZigIndexEntry \<Rightarrow> Item option outcome" where
  "index_item w k v =
     obind (GetFileEntryForHost w v) (\<lambda>fileEntry.
       case fileEntry of
         None \<Rightarrow> Return None
       | Some fe \<Rightarrow>
           (let item = Item_zero;
                versionString = ZigIndexEntry.Version v;
                (versionString, item) =
                   (if versionString = [] then (k, item)
                    else (versionString, item\<lparr>Master := True\<rparr>))
            in obind (ParseVersion versionString) (\<lambda>parsed.
                 case parsed of
                   Inl err \<Rightarrow> Panic (Panic_error err)
                 | Inr version \<Rightarrow>
                     (let item = item\<lparr>Item.Version := version\<rparr>;
                          item = item\<lparr>Indexed := True\<rparr>;
                          item = item\<lparr>RemoteUrl := Tarball fe\<rparr>
                      in obind (localTarballPathFromUrl w (RemoteUrl item)) (\<lambda>lp.
                           Return (Some (item\<lparr>LocalPath := lp\<rparr>)))))))"

fun index_fold :: "world \<Rightarrow> (string \<times> ZigIndexEntry) list \<Rightarrow> Item list \<Rightarrow> Item list outcome" where
  "index_fold w [] items = Return items"
| "index_fold w ((k, v) # rest) items =
     (case index_item w k v of
        Panic p \<Rightarrow> Panic p
      | Exit n \<Rightarrow> Exit n
      | Return None \<Rightarrow> index_fold w rest items
      | Return (Some item) \<Rightarrow> index_fold w rest (items @ [item]))"

text \<open>
  A slice expression \<^verbatim>\<open>sp[3:]\<close> panics when the slice is shorter than three, and
  \<^verbatim>\<open>sp[0:len(sp)-2]\<close> when it is shorter than two.
\<close>

definition slice_from :: "nat \<Rightarrow> 'a list \<Rightarrow> 'a list outcome" where
  "slice_from n xs =
     (if length xs < n then Panic (Slice_bounds_out_of_range n (length xs))
      else Return (drop n xs))"

definition slice_drop_last2 :: "'a list \<Rightarrow> 'a list outcome" where
  "slice_drop_last2 xs =
     (if length xs < 2 then Panic (Slice_bounds_out_of_range 0 (length xs))
      else Return (take (length xs - 2) xs))"

text \<open>
  The loop over the tarball directory (``Scan local tarballs''). \<open>tarball_version\<close> is the
  part of the body between the test of the extension and the lookup: it strips the last two
  dot-separated pieces of the file name, takes what follows the third hyphen and parses it,
  and panics with the error when the parse returns one. \<open>tarball_item\<close> is the body for one
  entry.
\<close>

definition tarball_version :: "string \<Rightarrow> Version outcome" where
  "tarball_version name0 =
     (let sp = Split name0 CHR ''.''
      in obind (slice_drop_last2 sp) (\<lambda>stem.
           let name = Join stem ''.'';
               sp = Split name CHR ''-''
           in obind (slice_from 3 sp) (\<lambda>tl3.
                let versionTag = Join tl3 ''-''
                in obind (ParseVersion versionTag) (\<lambda>parsed.
                     case parsed of
                       Inl err \<Rightarrow> Panic (Panic_error err)
                     | Inr version \<Rightarrow> Return version))))"

definition tarball_item :: "world \<Rightarrow> DirEntry \<Rightarrow> Item list \<Rightarrow> Item list outcome" where
  "tarball_item w entry items =
     (let name = Name entry
      in if Ext name = ''.xz'' then
           obind (tarball_version name) (\<lambda>version.
             case GetItemByVersion items version of
               Some i \<Rightarrow>
                 obind (localDirPath w [''tarballs'', Name entry]) (\<lambda>lp.
                   Return (items[i := (items ! i)\<lparr>Downloaded := True, LocalPath := lp\<rparr>]))
             | None \<Rightarrow>
                 (let item = Item_zero;
                      item = item\<lparr>Downloaded := True\<rparr>;
                      item = item\<lparr>Indexed := False\<rparr>
                  in obind (localDirPath w [''tarballs'', Name entry]) (\<lambda>lp.
                       Return (items @ [item\<lparr>LocalPath := lp, Item.Version := version\<rparr>]))))
         else Return items)"

text \<open>
  An entry of the tarball directory is a tarball of the version \<open>v\<close> when the loop body
  reaches the lookup for it with a version equal to \<open>v\<close>: its extension is \<^verbatim>\<open>.xz\<close> and the
  version embedded in its name parses to a version that \<^verbatim>\<open>equal\<close> identifies with \<open>v\<close>.
\<close>

definition tarball_of :: "DirEntry \<Rightarrow> Version \<Rightarrow> bool" where
  "tarball_of entry v =
     (Ext (Name entry) = ''.xz'' \<and>
      (case tarball_version (Name entry) of
         Return u \<Rightarrow> Version_equal u v
       | Panic p \<Rightarrow> False
       | Exit n \<Rightarrow> False))"

fun tarball_fold :: "world \<Rightarrow> DirEntry list \<Rightarrow> Item list \<Rightarrow> Item list outcome" where
  "tarball_fold w [] items = Return items"
| "tarball_fold w (entry # rest) items =
     (case tarball_item w entry items of
        Panic p \<Rightarrow> Panic p
      | Exit n \<Rightarrow> Exit n
      | Return items' \<Rightarrow> tarball_fold w rest items')"

text \<open>
  The loop over the directory of the current install (``look for current zig''): the first
  entry that is a directory with the prefix \<^verbatim>\<open>zig\<close> is handled and ends the loop
  (\<^verbatim>\<open>break\<close>).
\<close>

fun current_fold :: "DirEntry list \<Rightarrow> Item list \<Rightarrow> Item list outcome" where
  "current_fold [] items = Return items"
| "current_fold (e # rest) items =
     (if HasPrefix (Name e) ''zig'' \<and> IsDir e then
        (let name = Name e;
             sp = Split name CHR ''-''
         in obind (slice_from 3 sp) (\<lambda>tl3.
              let versionTag = Join tl3 ''-''
              in obind (ParseVersion versionTag) (\<lambda>parsed.
                   case parsed of
                     Inl err \<Rightarrow> Panic (Panic_error err)
                   | Inr version \<Rightarrow>
                       (case GetItemByVersion items version of
                          Some i \<Rightarrow> Return (items[i := (items ! i)\<lparr>Current := True\<rparr>])
                        | None \<Rightarrow> Panic (Panic_string ''current version is not downloaded!'')))))
      else current_fold rest items)"

text \<open>
  The three blocks in the order of \<^verbatim>\<open>run\<close>, from the items \<open>items\<close> the application
  starts with (\<^verbatim>\<open>NewAppState\<close> gives none): \<open>reconcile_folds\<close> is the inventory before
  the sort, \<open>reconcile\<close> the inventory that the commands see.
\<close>

definition read_dir :: "world \<Rightarrow> string \<Rightarrow> DirEntry list outcome" where
  "read_dir w d =
     obind (localDirPath w [d]) (\<lambda>p.
       case ReadDir w p of
         Inl err \<Rightarrow> Panic (Panic_error err)
       | Inr dir \<Rightarrow> Return dir)"

definition reconcile_folds :: "world \<Rightarrow> Item list \<Rightarrow> Item list outcome" where
  "reconcile_folds w items =
     (case FetchIndex w of
        Inl err \<Rightarrow> Panic (Panic_error err)
      | Inr index \<Rightarrow>
          obind (index_fold w index items) (\<lambda>items.
          obind (read_dir w ''tarballs'') (\<lambda>dir.
          obind (tarball_fold w dir items) (\<lambda>items.
          obind (read_dir w ''current'') (\<lambda>dir.
          current_fold dir items)))))"

definition sort_less :: "Item \<Rightarrow> Item \<Rightarrow> bool" where
  "sort_less a b = Version_moreThan (Item.Version a) (Item.Version b)"

definition reconcile :: "world \<Rightarrow> Item list \<Rightarrow> Item list outcome" where
  "reconcile w items =
     obind (reconcile_folds w items) (\<lambda>items. Return (sort_Slice w sort_less items))"

section \<open>Downloading (main.go, downloadTarball and commandDownloadItem)\<close>

text \<open>
  A command's effect on the terminal is the list of the strings it prints, returned beside
  how the call ends. \<^verbatim>\<open>downloadTarball\<close> returns the first error of the request, of
  reading the body, of creating the file or of writing it; the request with the reading, and
  the creation with the writing, are one call each of the \<open>world\<close>.
\<close>

definition downloadTarball :: "world \<Rightarrow> Item \<Rightarrow> string list \<times> error option" where
  "downloadTarball w item =
     (let out = [''Downlading tarball '' @ RemoteUrl item @ ''...'']
      in case http_Get w (RemoteUrl item) of
           Inl err \<Rightarrow> (out, Some err)
         | Inr data \<Rightarrow>
             (case write_file w (LocalPath item) data of
                Some err \<Rightarrow> (out, Some err)
              | None \<Rightarrow> (out @ [''Done!\<newline>''], None)))"

text \<open>\<^verbatim>\<open>func (app *AppState) commandDownloadItem(item *Item)\<close>: the item is returned as the
  call leaves it.\<close>

definition commandDownloadItem :: "world \<Rightarrow> Item \<Rightarrow> string list \<times> Item outcome" where
  "commandDownloadItem w item =
     (if Downloaded item then ([''Tarball already downloaded!\<newline>''], Return item)
      else if \<not> Indexed item then ([''Item not indexed!''], Exit 1)
      else
        (case downloadTarball w item of
           (out, Some err) \<Rightarrow> (out, Panic (Panic_error err))
         | (out, None) \<Rightarrow> (out, Return (item\<lparr>Downloaded := True\<rparr>))))"

section \<open>Sample inputs\<close>

text \<open>
  A catalog record with no member set, a stand-in for the two library functions (joining
  path elements with a slash, which is what \<^verbatim>\<open>path.Join\<close> returns for elements that need
  no cleaning, and an insertion sort), and a Linux machine on amd64 with the home directory
  \<^verbatim>\<open>/home/u\<close>, given the catalog and the listings of its two directories.
\<close>

definition sample_entry :: ZigIndexEntry where
  "sample_entry =
     \<lparr>ZigIndexEntry.Version = [], Date = [], Docs = [], StdDocs = [], Src = None,
      Bootstrap = None, X86_64_macos = None, Aarch64_macos = None, X86_64_linux = None,
      Aarch64_linux = None, Riscv64_linux = None, Powerpc64le_linux = None,
      Powerpc_linux = None, X86_linux = None, X86_64_windows = None,
      Aarch64_windows = None, X86_windows = None\<rparr>"

definition sample_file :: "string \<Rightarrow> ZigIndexFileEntry option" where
  "sample_file url = Some \<lparr>Tarball = url, Shasum = [], Size = []\<rparr>"

fun insert_by :: "('a \<Rightarrow> 'a \<Rightarrow> bool) \<Rightarrow> 'a \<Rightarrow> 'a list \<Rightarrow> 'a list" where
  "insert_by lt x [] = [x]"
| "insert_by lt x (y # ys) = (if lt y x then y # insert_by lt x ys else x # y # ys)"

definition sort_by :: "('a \<Rightarrow> 'a \<Rightarrow> bool) \<Rightarrow> 'a list \<Rightarrow> 'a list" where
  "sort_by lt xs = foldr (insert_by lt) xs []"

definition sample_world ::
  "(string \<times> ZigIndexEntry) list \<Rightarrow> DirEntry list \<Rightarrow> DirEntry list \<Rightarrow> world" where
  "sample_world index tarballs current =
     \<lparr>GOOS = ''linux'', GOARCH = ''amd64'', UserHomeDir = Inr ''/home/u'',
      path_Join = (\<lambda>elems. Join elems ''/''),
      FetchIndex = Inr index,
      ReadDir = (\<lambda>p. if p = ''/home/u/.zig-toolchain/tarballs'' then Inr tarballs
                      else if p = ''/home/u/.zig-toolchain/current'' then Inr current
                      else Inl (IO_error ''no such file or directory'')),
      sort_Slice = sort_by,
      http_Get = (\<lambda>url. Inl (IO_error ''no route to host'')),
      write_file = (\<lambda>p data. None)\<rparr>"

definition release_0_10_1 :: "string \<times> ZigIndexEntry" where
  "release_0_10_1 =
     (''0.10.1'', sample_entry\<lparr>X86_64_linux :=
        sample_file ''https://ziglang.org/download/0.10.1/zig-linux-x86_64-0.10.1.tar.xz''\<rparr>)"

definition master_0_12_0 :: "string \<times> ZigIndexEntry" where
  "master_0_12_0 =
     (''master'', sample_entry\<lparr>ZigIndexEntry.Version := ''0.12.0-dev.100+abcdef12'',
        X86_64_linux :=
          sample_file ''https://ziglang.org/builds/zig-linux-x86_64-0.12.0-dev.100+abcdef12.tar.xz''\<rparr>)"

section \<open>The order on versions\<close>

lemma Version_lessThan_iff:
  "Version_lessThan a b \<longleftrightarrow>
     Major a < Major b \<or> (Major a = Major b \<and>
       (Minor a < Minor b \<or> (Minor a = Minor b \<and>
         (Patch a < Patch b \<or> (Patch a = Patch b \<and>
           ((\<not> Dev a \<and> Dev b) \<or> (Dev a \<and> Dev b \<and> Build a < Build b)))))))"
  unfolding Version_lessThan_def by (cases "Dev a"; cases "Dev b"; simp; linarith)

lemma Version_equal_iff:
  "Version_equal a b \<longleftrightarrow>
     Major a = Major b \<and> Minor a = Minor b \<and> Patch a = Patch b \<and> Dev a = Dev b
     \<and> (Dev a \<longrightarrow> Build a = Build b)"
  unfolding Version_equal_def by (cases "Dev a"; cases "Dev b"; simp)

lemma Version_equal_sym: "Version_equal a b \<Longrightarrow> Version_equal b a"
  unfolding Version_equal_iff by auto

lemma Version_equal_trans: "Version_equal a b \<Longrightarrow> Version_equal b c \<Longrightarrow> Version_equal a c"
  unfolding Version_equal_iff by auto

text \<open>
  Claim C6. The comparison is a total order up to \<open>Version_equal\<close>: of \<open>lessThan(a, b)\<close>,
  \<open>equal(a, b)\<close> and \<open>lessThan(b, a)\<close> exactly one holds, and \<open>lessThan\<close> is transitive.
\<close>

theorem Version_total_order:
  "((Version_lessThan a b \<and> \<not> Version_equal a b \<and> \<not> Version_lessThan b a)
    \<or> (\<not> Version_lessThan a b \<and> Version_equal a b \<and> \<not> Version_lessThan b a)
    \<or> (\<not> Version_lessThan a b \<and> \<not> Version_equal a b \<and> Version_lessThan b a))
   \<and> (Version_lessThan a b \<and> Version_lessThan b c \<longrightarrow> Version_lessThan a c)"
proof
  show "(Version_lessThan a b \<and> \<not> Version_equal a b \<and> \<not> Version_lessThan b a)
    \<or> (\<not> Version_lessThan a b \<and> Version_equal a b \<and> \<not> Version_lessThan b a)
    \<or> (\<not> Version_lessThan a b \<and> \<not> Version_equal a b \<and> Version_lessThan b a)"
    unfolding Version_lessThan_iff Version_equal_iff
    by (cases "Dev a"; cases "Dev b"; simp; linarith)
  show "Version_lessThan a b \<and> Version_lessThan b c \<longrightarrow> Version_lessThan a c"
    unfolding Version_lessThan_iff
    by (cases "Dev a"; cases "Dev b"; cases "Dev c"; simp; linarith)
qed

theorem Version_total_order_witness:
  "Version_lessThan
     \<lparr>Major = 0, Minor = 9, Patch = 1, Dev = False, Build = 0, Commit = []\<rparr>
     \<lparr>Major = 0, Minor = 10, Patch = 0, Dev = False, Build = 0, Commit = []\<rparr>
   \<and> Version_lessThan
     \<lparr>Major = 0, Minor = 10, Patch = 0, Dev = False, Build = 0, Commit = []\<rparr>
     \<lparr>Major = 0, Minor = 10, Patch = 0, Dev = True, Build = 7, Commit = ''abc''\<rparr>
   \<and> Version_lessThan
     \<lparr>Major = 0, Minor = 9, Patch = 1, Dev = False, Build = 0, Commit = []\<rparr>
     \<lparr>Major = 0, Minor = 10, Patch = 0, Dev = True, Build = 7, Commit = ''abc''\<rparr>
   \<and> \<not> Version_equal
     \<lparr>Major = 0, Minor = 9, Patch = 1, Dev = False, Build = 0, Commit = []\<rparr>
     \<lparr>Major = 0, Minor = 10, Patch = 0, Dev = False, Build = 0, Commit = []\<rparr>
   \<and> \<not> Version_lessThan
     \<lparr>Major = 0, Minor = 10, Patch = 0, Dev = False, Build = 0, Commit = []\<rparr>
     \<lparr>Major = 0, Minor = 9, Patch = 1, Dev = False, Build = 0, Commit = []\<rparr>"
  using Version_total_order
    [of "\<lparr>Major = 0, Minor = 9, Patch = 1, Dev = False, Build = 0, Commit = []\<rparr>"
        "\<lparr>Major = 0, Minor = 10, Patch = 0, Dev = False, Build = 0, Commit = []\<rparr>"
        "\<lparr>Major = 0, Minor = 10, Patch = 0, Dev = True, Build = 7, Commit = ''abc''\<rparr>"]
  by (simp add: Version_lessThan_def Version_equal_def)

text \<open>
  Claim C7, as the claim states it, fails: with the same major, minor and patch numbers,
  \<open>lessThan\<close> of a dev version against a release returns false.
\<close>

theorem dev_below_release_counterexample:
  "\<not> Version_lessThan
       \<lparr>Major = 0, Minor = 11, Patch = 0, Dev = True, Build = 1234, Commit = ''abc123de''\<rparr>
       \<lparr>Major = 0, Minor = 11, Patch = 0, Dev = False, Build = 0, Commit = []\<rparr>"
  by (simp add: Version_lessThan_def)

text \<open>
  Claim C7, amended. For every major, minor and patch number, the release with these
  numbers is strictly less than every dev version with the same numbers, whatever the build
  number and the commit: \<open>lessThan\<close> of the release against the dev version returns true, and
  \<open>lessThan\<close> of the dev version against the release returns false.
\<close>

theorem release_below_dev:
  "Version_lessThan
     \<lparr>Major = M, Minor = m, Patch = p, Dev = False, Build = b, Commit = c\<rparr>
     \<lparr>Major = M, Minor = m, Patch = p, Dev = True, Build = b', Commit = c'\<rparr>
   \<and> \<not> Version_lessThan
     \<lparr>Major = M, Minor = m, Patch = p, Dev = True, Build = b', Commit = c'\<rparr>
     \<lparr>Major = M, Minor = m, Patch = p, Dev = False, Build = b, Commit = c\<rparr>"
  by (simp add: Version_lessThan_def)

theorem release_below_dev_witness:
  "Version_lessThan
     \<lparr>Major = 0, Minor = 11, Patch = 0, Dev = False, Build = 0, Commit = []\<rparr>
     \<lparr>Major = 0, Minor = 11, Patch = 0, Dev = True, Build = 1234, Commit = ''abc123de''\<rparr>"
  using release_below_dev [of 0 11 0 0 "[]" 1234 "''abc123de''"] by simp

text \<open>
  Claim C8. Equality does not read the commit hash: two dev versions with the same major,
  minor, patch and build numbers are equal whatever their commits are, and so are the two
  versions 1.2.3 dev 7 with the commits \<^verbatim>\<open>aaa\<close> and \<^verbatim>\<open>bbb\<close>.
\<close>

theorem equal_ignores_commit:
  "Version_equal
     \<lparr>Major = M, Minor = m, Patch = p, Dev = True, Build = b, Commit = c\<rparr>
     \<lparr>Major = M, Minor = m, Patch = p, Dev = True, Build = b, Commit = c'\<rparr>
   \<and> Version_equal
     \<lparr>Major = 1, Minor = 2, Patch = 3, Dev = True, Build = 7, Commit = ''aaa''\<rparr>
     \<lparr>Major = 1, Minor = 2, Patch = 3, Dev = True, Build = 7, Commit = ''bbb''\<rparr>"
  by (simp add: Version_equal_def)

theorem equal_ignores_commit_witness:
  "Version_equal
     \<lparr>Major = 0, Minor = 12, Patch = 0, Dev = True, Build = 100, Commit = ''abcdef12''\<rparr>
     \<lparr>Major = 0, Minor = 12, Patch = 0, Dev = True, Build = 100, Commit = ''0123abcd''\<rparr>"
  using equal_ignores_commit [of 0 12 0 100 "''abcdef12''" "''0123abcd''"] by simp

section \<open>Parsing\<close>

text \<open>
  Claim C3 does not hold of \<open>ParseVersion\<close>. A malformed major or minor segment is not
  reported: the error of the first two conversions is overwritten by the third, and the
  segment counts as 0. A dev tag without the \<^verbatim>\<open>+commit\<close> part, or without a dot, ends in
  the panic of an index out of range. A malformed patch segment and a wrong number of
  segments are reported.
\<close>

theorem ParseVersion_unreported:
  "ParseVersion ''a.1.2'' =
     Return (Inr \<lparr>Major = 0, Minor = 1, Patch = 2, Dev = False, Build = 0, Commit = []\<rparr>)
   \<and> ParseVersion ''1.b.2'' =
     Return (Inr \<lparr>Major = 1, Minor = 0, Patch = 2, Dev = False, Build = 0, Commit = []\<rparr>)
   \<and> ParseVersion ''0.11.0-dev.1234'' = Panic (Index_out_of_range 1 1)
   \<and> ParseVersion ''1.2.c'' = Return (Inl (NumError ''c'' ErrSyntax))
   \<and> ParseVersion ''1.2'' = Return (Inl (Failed_to_parse ''1.2''))"
  by code_simp

section \<open>Splitting and decimal numerals\<close>

lemma Split_not_Nil [simp]: "Split s sep \<noteq> []"
  by (induction s) (auto split: list.splits)

lemma Split_no_sep: "sep \<notin> set xs \<Longrightarrow> Split xs sep = [xs]"
  by (induction xs) auto

lemma Split_append_sep: "sep \<notin> set xs \<Longrightarrow> Split (xs @ sep # ys) sep = xs # Split ys sep"
  by (induction xs) auto

lemma Split_append_no_sep:
  "sep \<notin> set xs \<Longrightarrow> Split (xs @ ys) sep = (xs @ hd (Split ys sep)) # tl (Split ys sep)"
  by (induction xs) (auto split: list.splits)

lemma of_char_digit_char: "0 \<le> d \<Longrightarrow> d < 10 \<Longrightarrow> (of_char (digit_char d) :: int) = 48 + d"
  by (simp add: digit_char_def)

lemma digit_value_digit_char: "0 \<le> d \<Longrightarrow> d < 10 \<Longrightarrow> digit_value (digit_char d) = Some d"
  by (simp add: digit_value_def Let_def of_char_digit_char)

lemma digit_char_neq:
  assumes "0 \<le> d" "d < 10" "(of_char c :: int) < 48 \<or> 57 < (of_char c :: int)"
  shows "digit_char d \<noteq> c"
proof
  assume "digit_char d = c"
  then have "(of_char c :: int) = 48 + d" using of_char_digit_char [OF assms(1,2)] by simp
  with assms show False by auto
qed

lemma digits_chars: "0 \<le> n \<Longrightarrow> c \<in> set (digits n) \<Longrightarrow> \<exists>d. 0 \<le> d \<and> d < 10 \<and> c = digit_char d"
proof (induction n rule: digits.induct)
  case (1 n)
  show ?case
  proof (cases "n < 10")
    case True
    with 1 show ?thesis by (auto simp: digits.simps [of n])
  next
    case False
    from 1(3) False have "c \<in> set (digits (n div 10)) \<or> c = digit_char (n mod 10)"
      by (auto simp: digits.simps [of n])
    then show ?thesis
    proof
      assume "c \<in> set (digits (n div 10))"
      with 1(1) [OF False] 1(2) show ?thesis by simp
    next
      assume "c = digit_char (n mod 10)"
      then show ?thesis by (intro exI [of _ "n mod 10"]) simp
    qed
  qed
qed

lemma digits_not_Nil: "digits n \<noteq> []"
  by (subst digits.simps) simp

lemma digits_free:
  assumes "0 \<le> n" "(of_char c :: int) < 48 \<or> 57 < (of_char c :: int)"
  shows "c \<notin> set (digits n)"
  using digits_chars [OF assms(1)] digit_char_neq [OF _ _ assms(2)] by blast

lemma ParseUint_loop_digits:
  "0 \<le> n \<Longrightarrow> 0 \<le> acc \<Longrightarrow> acc * 10 ^ length (digits n) + n \<le> 2 ^ 32 - 1 \<Longrightarrow>
   ParseUint_loop acc (digits n @ rest) = ParseUint_loop (acc * 10 ^ length (digits n) + n) rest"
proof (induction n arbitrary: rest rule: digits.induct)
  case (1 n)
  show ?case
  proof (cases "n < 10")
    case True
    with 1(2-) show ?thesis
      by (simp add: digits.simps [of n] digit_value_digit_char Let_def)
  next
    case False
    let ?k = "length (digits (n div 10))"
    have len: "length (digits n) = Suc ?k" using False by (simp add: digits.simps [of n])
    have split: "digits n @ rest = digits (n div 10) @ (digit_char (n mod 10) # rest)"
      using False by (simp add: digits.simps [of n])
    have n_eq: "n = (n div 10) * 10 + n mod 10" by simp
    have pos: "0 \<le> acc * 10 ^ ?k" using 1(3) by simp
    have bound: "acc * 10 ^ Suc ?k + n \<le> 2 ^ 32 - 1" using 1(4) len by simp
    have step: "(acc * 10 ^ ?k + n div 10) * 10 + n mod 10 = acc * 10 ^ Suc ?k + n"
      by (simp add: algebra_simps)
    have small: "acc * 10 ^ ?k + n div 10 \<le> 2 ^ 32 - 1"
    proof -
      have "acc * 10 ^ ?k + n div 10 \<le> (acc * 10 ^ ?k + n div 10) * 10 + n mod 10"
        using pos 1(2) by (simp add: pos_imp_zdiv_nonneg_iff)
      with step bound show ?thesis by simp
    qed
    have "ParseUint_loop acc (digits n @ rest) =
          ParseUint_loop (acc * 10 ^ ?k + n div 10) (digit_char (n mod 10) # rest)"
      unfolding split using 1(1) [OF False _ 1(3) small] 1(2)
      by (simp add: pos_imp_zdiv_nonneg_iff)
    also have "\<dots> = ParseUint_loop ((acc * 10 ^ ?k + n div 10) * 10 + n mod 10) rest"
      using bound unfolding step [symmetric] by (simp add: digit_value_digit_char Let_def)
    also have "\<dots> = ParseUint_loop (acc * 10 ^ Suc ?k + n) rest"
      by (simp only: step)
    finally show ?thesis by (simp only: len)
  qed
qed

lemma ParseInt32_digits:
  assumes "0 \<le> n" "n < 2 ^ 31"
  shows "ParseInt32 (digits n) = (n, None)"
proof -
  have "ParseUint_loop 0 (digits n @ []) = ParseUint_loop (0 * 10 ^ length (digits n) + n) []"
    using assms by (intro ParseUint_loop_digits) auto
  then have u: "ParseUint32 (digits n) = (n, None)"
    by (simp add: ParseUint32_def digits_not_Nil)
  have "hd (digits n) \<in> set (digits n)" using digits_not_Nil by simp
  then have h: "hd (digits n) \<noteq> CHR ''+''" "hd (digits n) \<noteq> CHR ''-''"
    using digits_free [OF assms(1), of "CHR ''+''"] digits_free [OF assms(1), of "CHR ''-''"]
    by auto
  show ?thesis using u h assms by (simp add: ParseInt32_def digits_not_Nil)
qed


lemma digits_no_sep:
  assumes "0 \<le> n"
  shows "CHR ''.'' \<notin> set (digits n)" "CHR ''-'' \<notin> set (digits n)" "CHR ''+'' \<notin> set (digits n)"
  using digits_free [OF assms, of "CHR ''.''"] digits_free [OF assms, of "CHR ''-''"]
    digits_free [OF assms, of "CHR ''+''"] by simp_all

lemma fmt_d_nonneg: "0 \<le> n \<Longrightarrow> fmt_d n = digits n"
  by (simp add: fmt_d_def)

lemma Split_triple:
  assumes "sep \<notin> set a" "sep \<notin> set b" "sep \<notin> set c"
  shows "Split (a @ sep # b @ sep # c) sep = [a, b, c]"
  using assms by (simp add: Split_append_sep Split_no_sep)

lemma ParseVersion_head:
  assumes sp: "Split v CHR ''-'' = h # rest"
    and sp2: "Split h CHR ''.'' = [a, b, c]"
    and patch: "ParseInt32 c = (p, None)"
  shows "ParseVersion v =
     (let result = \<lparr>Major = fst (ParseInt32 a), Minor = fst (ParseInt32 b), Patch = p,
                     Dev = False, Build = 0, Commit = []\<rparr>
      in if rest = [] then Return (Inr result)
         else
           (let t = Split (hd rest) CHR ''.''
            in if length t \<le> 1 then Panic (Index_out_of_range 1 (length t))
               else
                 let sp2 = Split (t ! 1) CHR ''+''
                 in case snd (ParseInt32 (hd sp2)) of
                      Some e \<Rightarrow> Return (Inl e)
                    | None \<Rightarrow>
                        (if length sp2 \<le> 1 then Panic (Index_out_of_range 1 (length sp2))
                         else Return (Inr (result\<lparr>Dev := True, Build := fst (ParseInt32 (hd sp2)),
                                                   Commit := sp2 ! 1\<rparr>)))))"
  using sp sp2 patch
  by (cases rest) (simp_all add: ParseVersion_def Let_def split_beta split: option.splits)

lemma ParseVersion_release_digits:
  assumes "0 \<le> M" "0 \<le> m" "0 \<le> p" "M < 2 ^ 31" "m < 2 ^ 31" "p < 2 ^ 31"
  shows "ParseVersion (digits M @ ''.'' @ digits m @ ''.'' @ digits p) =
     Return (Inr \<lparr>Major = M, Minor = m, Patch = p, Dev = False, Build = 0, Commit = []\<rparr>)"
proof -
  let ?s = "digits M @ ''.'' @ digits m @ ''.'' @ digits p"
  have "CHR ''-'' \<notin> set ?s" using assms(1-3) by (simp add: digits_no_sep)
  then have sp: "Split ?s CHR ''-'' = ?s # []" by (rule Split_no_sep)
  have sp2: "Split ?s CHR ''.'' = [digits M, digits m, digits p]"
    using Split_triple [of "CHR ''.''" "digits M" "digits m" "digits p"] assms(1-3)
    by (simp add: digits_no_sep)
  note pM = ParseInt32_digits [OF assms(1,4)]
  note pm = ParseInt32_digits [OF assms(2,5)]
  note pp = ParseInt32_digits [OF assms(3,6)]
  show ?thesis
    using ParseVersion_head [OF sp sp2 pp] by (simp add: pM pm)
qed

lemma ParseVersion_dev_shape:
  assumes sp: "Split v CHR ''-'' = h # r # rest"
    and sp2: "Split h CHR ''.'' = [a, b, c]"
    and patch: "ParseInt32 c = (p, None)"
    and t: "Split r CHR ''.'' = t0 # x # trest"
    and s2: "Split x CHR ''+'' = bs # cm # srest"
    and build: "ParseInt32 bs = (bv, None)"
  shows "ParseVersion v =
     Return (Inr \<lparr>Major = fst (ParseInt32 a), Minor = fst (ParseInt32 b), Patch = p,
                  Dev = True, Build = bv, Commit = cm\<rparr>)"
  using ParseVersion_head [OF sp sp2 patch] by (simp add: t s2 build)

lemma ParseVersion_dev_digits:
  assumes "0 \<le> M" "0 \<le> m" "0 \<le> p" "0 \<le> b" "M < 2 ^ 31" "m < 2 ^ 31" "p < 2 ^ 31" "b < 2 ^ 31"
  shows "ParseVersion (digits M @ ''.'' @ digits m @ ''.'' @ digits p @ ''-dev.'' @ digits b @ ''+'' @ c) =
     Return (Inr \<lparr>Major = M, Minor = m, Patch = p, Dev = True, Build = b,
                  Commit = hd (Split (hd (Split (hd (Split c CHR ''-'')) CHR ''.'')) CHR ''+'')\<rparr>)"
proof -
  let ?h = "digits M @ ''.'' @ digits m @ ''.'' @ digits p"
  let ?c1 = "hd (Split c CHR ''-'')"
  let ?c2 = "hd (Split ?c1 CHR ''.'')"
  let ?c3 = "hd (Split ?c2 CHR ''+'')"
  let ?v = "?h @ CHR ''-'' # (''dev.'' @ digits b @ ''+'') @ c"
  let ?r = "(''dev.'' @ digits b @ ''+'') @ ?c1"
  let ?x = "(digits b @ ''+'') @ ?c2"
  note pM = ParseInt32_digits [OF assms(1,5)]
  note pm = ParseInt32_digits [OF assms(2,6)]
  note pp = ParseInt32_digits [OF assms(3,7)]
  note pb = ParseInt32_digits [OF assms(4,8)]
  have h: "CHR ''-'' \<notin> set ?h" using assms(1-3) by (simp add: digits_no_sep)
  have d: "CHR ''-'' \<notin> set (''dev.'' @ digits b @ ''+'')" using assms(4) by (simp add: digits_no_sep)
  have sp: "Split ?v CHR ''-'' = ?h # ?r # tl (Split c CHR ''-'')"
    unfolding Split_append_sep [OF h] Split_append_no_sep [OF d] ..
  have sp2: "Split ?h CHR ''.'' = [digits M, digits m, digits p]"
    using Split_triple [of "CHR ''.''" "digits M" "digits m" "digits p"] assms(1-3)
    by (simp add: digits_no_sep)
  have e: "CHR ''.'' \<notin> set (digits b @ ''+'')" using assms(4) by (simp add: digits_no_sep)
  have "Split (''dev'' @ CHR ''.'' # ((digits b @ ''+'') @ ?c1)) CHR ''.''
        = ''dev'' # ?x # tl (Split ?c1 CHR ''.'')"
    unfolding Split_append_no_sep [OF e, symmetric] by (rule Split_append_sep) simp
  then have t: "Split ?r CHR ''.'' = ''dev'' # ?x # tl (Split ?c1 CHR ''.'')" by simp
  have "Split (digits b @ CHR ''+'' # ?c2) CHR ''+'' = digits b # Split ?c2 CHR ''+''"
    using assms(4) by (intro Split_append_sep) (simp add: digits_no_sep)
  moreover have "Split ?c2 CHR ''+'' = ?c3 # tl (Split ?c2 CHR ''+'')" by simp
  ultimately have s2: "Split ?x CHR ''+'' = digits b # ?c3 # tl (Split ?c2 CHR ''+'')" by simp
  have "ParseVersion ?v =
     Return (Inr \<lparr>Major = fst (ParseInt32 (digits M)), Minor = fst (ParseInt32 (digits m)),
                  Patch = p, Dev = True, Build = b, Commit = ?c3\<rparr>)"
    by (rule ParseVersion_dev_shape [OF sp sp2 pp t s2 pb])
  then show ?thesis by (simp add: pM pm)
qed


lemma ParseVersion_no_dot_tail:
  assumes len: "1 < length (Split v CHR ''-'')"
    and three: "length (Split (hd (Split v CHR ''-'')) CHR ''.'') = 3"
    and patch: "snd (ParseInt32 (Split (hd (Split v CHR ''-'')) CHR ''.'' ! 2)) = None"
    and nodot: "CHR ''.'' \<notin> set (Split v CHR ''-'' ! 1)"
  shows "ParseVersion v = Panic (Index_out_of_range 1 1)"
proof -
  from len obtain h r rest where sp: "Split v CHR ''-'' = h # r # rest"
    by (cases "Split v CHR ''-''"; cases "tl (Split v CHR ''-'')") auto
  from three sp obtain a b c where sp2: "Split h CHR ''.'' = [a, b, c]"
    by (auto simp: length_Suc_conv numeral_3_eq_3)
  from patch sp sp2 have p: "ParseInt32 c = (fst (ParseInt32 c), None)"
    by (simp add: prod_eq_iff)
  from nodot sp have "Split r CHR ''.'' = [r]" by (simp add: Split_no_sep)
  then show ?thesis using ParseVersion_head [OF sp sp2 p] by simp
qed

lemma Version_String_dev_Split:
  assumes "Dev x" "0 \<le> Major x" "0 \<le> Minor x" "0 \<le> Patch x"
  shows "Split (Version_String x) CHR ''-'' =
           (digits (Major x) @ ''.'' @ digits (Minor x) @ ''.'' @ digits (Patch x))
           # ''dev'' # Split (fmt_d (Build x)) CHR ''-''"
proof -
  let ?h = "digits (Major x) @ ''.'' @ digits (Minor x) @ ''.'' @ digits (Patch x)"
  have h: "CHR ''-'' \<notin> set ?h" using assms(2-4) by (simp add: digits_no_sep)
  have d: "CHR ''-'' \<notin> set ''dev''" by simp
  have "Version_String x = ?h @ CHR ''-'' # (''dev'' @ CHR ''-'' # fmt_d (Build x))"
    using assms by (simp add: Version_String_def fmt_d_nonneg)
  then show ?thesis
    unfolding Split_append_sep [OF h, symmetric] Split_append_sep [OF d, symmetric] by simp
qed

section \<open>Display after parsing, and parsing after display\<close>

text \<open>
  Claim C9. A valid release-form string is \<^verbatim>\<open>MAJOR.MINOR.PATCH\<close> with each number written
  in decimal as \<^verbatim>\<open>%d\<close> prints it, below \<open>2^31\<close> (the bit size of the conversion); a valid
  dev-form string continues with \<^verbatim>\<open>-dev.BUILD+COMMIT\<close>, for such a build number and any
  commit. Parsing the release form returns the version with these numbers that is not a dev
  version, and its display is the string that was parsed. Parsing the dev form returns the
  dev version with these numbers and this build, and its display is
  \<^verbatim>\<open>MAJOR.MINOR.PATCH-dev-BUILD\<close>, without the commit.
\<close>

theorem parse_display_roundtrip:
  "0 \<le> M \<and> M < 2 ^ 31 \<and> 0 \<le> m \<and> m < 2 ^ 31 \<and> 0 \<le> p \<and> p < 2 ^ 31 \<and> 0 \<le> b \<and> b < 2 ^ 31 \<longrightarrow>
     ParseVersion (fmt_d M @ ''.'' @ fmt_d m @ ''.'' @ fmt_d p) =
       Return (Inr \<lparr>Major = M, Minor = m, Patch = p, Dev = False, Build = 0, Commit = []\<rparr>)
     \<and> Version_String \<lparr>Major = M, Minor = m, Patch = p, Dev = False, Build = 0, Commit = []\<rparr>
         = fmt_d M @ ''.'' @ fmt_d m @ ''.'' @ fmt_d p
     \<and> ParseVersion (fmt_d M @ ''.'' @ fmt_d m @ ''.'' @ fmt_d p @ ''-dev.'' @ fmt_d b @ ''+'' @ c) =
       Return (Inr \<lparr>Major = M, Minor = m, Patch = p, Dev = True, Build = b,
                    Commit = hd (Split (hd (Split (hd (Split c CHR ''-'')) CHR ''.'')) CHR ''+'')\<rparr>)
     \<and> Version_String \<lparr>Major = M, Minor = m, Patch = p, Dev = True, Build = b,
                       Commit = hd (Split (hd (Split (hd (Split c CHR ''-'')) CHR ''.'')) CHR ''+'')\<rparr>
         = fmt_d M @ ''.'' @ fmt_d m @ ''.'' @ fmt_d p @ ''-dev-'' @ fmt_d b"
proof
  assume a: "0 \<le> M \<and> M < 2 ^ 31 \<and> 0 \<le> m \<and> m < 2 ^ 31 \<and> 0 \<le> p \<and> p < 2 ^ 31 \<and> 0 \<le> b \<and> b < 2 ^ 31"
  then have f: "fmt_d M = digits M" "fmt_d m = digits m" "fmt_d p = digits p" "fmt_d b = digits b"
    by (simp_all add: fmt_d_nonneg)
  have r: "ParseVersion (digits M @ ''.'' @ digits m @ ''.'' @ digits p) =
       Return (Inr \<lparr>Major = M, Minor = m, Patch = p, Dev = False, Build = 0, Commit = []\<rparr>)"
    using a by (intro ParseVersion_release_digits) simp_all
  have d: "ParseVersion (digits M @ ''.'' @ digits m @ ''.'' @ digits p @ ''-dev.'' @ digits b @ ''+'' @ c) =
       Return (Inr \<lparr>Major = M, Minor = m, Patch = p, Dev = True, Build = b,
                    Commit = hd (Split (hd (Split (hd (Split c CHR ''-'')) CHR ''.'')) CHR ''+'')\<rparr>)"
    using a by (intro ParseVersion_dev_digits) simp_all
  show "ParseVersion (fmt_d M @ ''.'' @ fmt_d m @ ''.'' @ fmt_d p) =
       Return (Inr \<lparr>Major = M, Minor = m, Patch = p, Dev = False, Build = 0, Commit = []\<rparr>)
     \<and> Version_String \<lparr>Major = M, Minor = m, Patch = p, Dev = False, Build = 0, Commit = []\<rparr>
         = fmt_d M @ ''.'' @ fmt_d m @ ''.'' @ fmt_d p
     \<and> ParseVersion (fmt_d M @ ''.'' @ fmt_d m @ ''.'' @ fmt_d p @ ''-dev.'' @ fmt_d b @ ''+'' @ c) =
       Return (Inr \<lparr>Major = M, Minor = m, Patch = p, Dev = True, Build = b,
                    Commit = hd (Split (hd (Split (hd (Split c CHR ''-'')) CHR ''.'')) CHR ''+'')\<rparr>)
     \<and> Version_String \<lparr>Major = M, Minor = m, Patch = p, Dev = True, Build = b,
                       Commit = hd (Split (hd (Split (hd (Split c CHR ''-'')) CHR ''.'')) CHR ''+'')\<rparr>
         = fmt_d M @ ''.'' @ fmt_d m @ ''.'' @ fmt_d p @ ''-dev-'' @ fmt_d b"
    unfolding f using r d by (simp add: Version_String_def f)
qed

theorem parse_display_roundtrip_witness:
  "ParseVersion ''0.10.1'' =
     Return (Inr \<lparr>Major = 0, Minor = 10, Patch = 1, Dev = False, Build = 0, Commit = []\<rparr>)
   \<and> Version_String \<lparr>Major = 0, Minor = 10, Patch = 1, Dev = False, Build = 0, Commit = []\<rparr>
       = ''0.10.1''
   \<and> ParseVersion ''0.10.1-dev.1234+abc123de'' =
     Return (Inr \<lparr>Major = 0, Minor = 10, Patch = 1, Dev = True, Build = 1234,
                  Commit = ''abc123de''\<rparr>)
   \<and> Version_String \<lparr>Major = 0, Minor = 10, Patch = 1, Dev = True, Build = 1234,
                     Commit = ''abc123de''\<rparr>
       = ''0.10.1-dev-1234''"
proof -
  have f: "fmt_d 0 = ''0''" "fmt_d 10 = ''10''" "fmt_d 1 = ''1''" "fmt_d 1234 = ''1234''"
    by code_simp+
  have c: "hd (Split (hd (Split (hd (Split ''abc123de'' CHR ''-'')) CHR ''.'')) CHR ''+'') = ''abc123de''"
    by code_simp
  show ?thesis
    using parse_display_roundtrip [of 0 10 1 1234 "''abc123de''"]
    unfolding f c by simp
qed

text \<open>
  Claim C10, as the claim states it, fails: an input whose first segment after a hyphen
  has no dot does not crash when the head is not made of three dot-separated segments; the
  parse error is returned before the tail is looked at.
\<close>

theorem ParseVersion_no_dot_tail_counterexample:
  "1 < length (Split ''1.2-dev'' CHR ''-'')
   \<and> CHR ''.'' \<notin> set (Split ''1.2-dev'' CHR ''-'' ! 1)
   \<and> ParseVersion ''1.2-dev'' = Return (Inl (Failed_to_parse ''1.2-dev''))"
  by code_simp

text \<open>
  Claim C10, amended. For every input with a hyphen whose head, the part before the first
  hyphen, has exactly three dot-separated segments of which the third converts without
  error, and whose first segment after the hyphen contains no dot, \<open>ParseVersion\<close> ends in
  the panic of index 1 out of range for length 1; no error is returned. The display of a dev
  version with a major, minor and patch number that are not negative, the patch below
  \<open>2^31\<close>, is such an input, so it is not parsed back.
\<close>

theorem ParseVersion_crash_on_display_form:
  "(1 < length (Split v CHR ''-'')
      \<and> length (Split (hd (Split v CHR ''-'')) CHR ''.'') = 3
      \<and> snd (ParseInt32 (Split (hd (Split v CHR ''-'')) CHR ''.'' ! 2)) = None
      \<and> CHR ''.'' \<notin> set (Split v CHR ''-'' ! 1)
    \<longrightarrow> ParseVersion v = Panic (Index_out_of_range 1 1))
   \<and> (Dev x \<and> 0 \<le> Major x \<and> 0 \<le> Minor x \<and> 0 \<le> Patch x \<and> Patch x < 2 ^ 31
    \<longrightarrow> ParseVersion (Version_String x) = Panic (Index_out_of_range 1 1))"
proof (intro conjI impI)
  assume "1 < length (Split v CHR ''-'')
      \<and> length (Split (hd (Split v CHR ''-'')) CHR ''.'') = 3
      \<and> snd (ParseInt32 (Split (hd (Split v CHR ''-'')) CHR ''.'' ! 2)) = None
      \<and> CHR ''.'' \<notin> set (Split v CHR ''-'' ! 1)"
  then show "ParseVersion v = Panic (Index_out_of_range 1 1)"
    by (intro ParseVersion_no_dot_tail) simp_all
next
  assume a: "Dev x \<and> 0 \<le> Major x \<and> 0 \<le> Minor x \<and> 0 \<le> Patch x \<and> Patch x < 2 ^ 31"
  then have sp: "Split (Version_String x) CHR ''-'' =
           (digits (Major x) @ ''.'' @ digits (Minor x) @ ''.'' @ digits (Patch x))
           # ''dev'' # Split (fmt_d (Build x)) CHR ''-''"
    by (intro Version_String_dev_Split) simp_all
  have sp2: "Split (digits (Major x) @ ''.'' @ digits (Minor x) @ ''.'' @ digits (Patch x)) CHR ''.''
     = [digits (Major x), digits (Minor x), digits (Patch x)]"
    using Split_triple [of "CHR ''.''" "digits (Major x)" "digits (Minor x)" "digits (Patch x)"] a
    by (simp add: digits_no_sep)
  have p: "ParseInt32 (digits (Patch x)) = (Patch x, None)"
    using a by (intro ParseInt32_digits) simp_all
  show "ParseVersion (Version_String x) = Panic (Index_out_of_range 1 1)"
    using ParseVersion_head [OF sp sp2 p] by simp
qed

theorem ParseVersion_crash_on_display_form_witness:
  "Version_String \<lparr>Major = 0, Minor = 11, Patch = 0, Dev = True, Build = 1234,
                   Commit = ''abc123de''\<rparr> = ''0.11.0-dev-1234''
   \<and> ParseVersion ''0.11.0-dev-1234'' = Panic (Index_out_of_range 1 1)"
proof -
  have s: "Version_String \<lparr>Major = 0, Minor = 11, Patch = 0, Dev = True, Build = 1234,
                   Commit = ''abc123de''\<rparr> = ''0.11.0-dev-1234''"
    by code_simp
  have h: "1 < length (Split ''0.11.0-dev-1234'' CHR ''-'')
      \<and> length (Split (hd (Split ''0.11.0-dev-1234'' CHR ''-'')) CHR ''.'') = 3
      \<and> snd (ParseInt32 (Split (hd (Split ''0.11.0-dev-1234'' CHR ''-'')) CHR ''.'' ! 2)) = None
      \<and> CHR ''.'' \<notin> set (Split ''0.11.0-dev-1234'' CHR ''-'' ! 1)"
    by code_simp
  show ?thesis
    using ParseVersion_crash_on_display_form
      [of "''0.11.0-dev-1234''"
          "\<lparr>Major = 0, Minor = 11, Patch = 0, Dev = True, Build = 1234, Commit = ''abc123de''\<rparr>"]
      h s
    by simp
qed


section \<open>Downloading\<close>

text \<open>
  Claim C4, as the claim states it, fails: for an item that is downloaded and not indexed
  the command prints that the tarball is already downloaded and returns; nothing is
  rejected.
\<close>

theorem download_unindexed_counterexample:
  "commandDownloadItem (sample_world [] [] [])
     (Item_zero\<lparr>Downloaded := True, Indexed := False\<rparr>)
   = ([''Tarball already downloaded!\<newline>''],
      Return (Item_zero\<lparr>Downloaded := True, Indexed := False\<rparr>))"
  by (simp add: commandDownloadItem_def Item_zero_def)

text \<open>
  Claim C4, amended. For every item that is downloaded, indexed or not, the download
  command prints ``Tarball already downloaded!'' and returns with the item unchanged. The
  exit with status 1 after ``Item not indexed!'' is what the command does for every item
  that is neither downloaded nor indexed.
\<close>

theorem download_guards:
  "(Downloaded item \<longrightarrow>
      commandDownloadItem w item = ([''Tarball already downloaded!\<newline>''], Return item))
   \<and> (\<not> Downloaded item \<and> \<not> Indexed item \<longrightarrow>
      commandDownloadItem w item = ([''Item not indexed!''], Exit 1))"
  by (simp add: commandDownloadItem_def)

theorem download_guards_witness:
  "Downloaded (Item_zero\<lparr>Downloaded := True\<rparr>)
   \<and> commandDownloadItem (sample_world [] [] []) (Item_zero\<lparr>Downloaded := True\<rparr>)
       = ([''Tarball already downloaded!\<newline>''], Return (Item_zero\<lparr>Downloaded := True\<rparr>))
   \<and> \<not> Downloaded Item_zero \<and> \<not> Indexed Item_zero
   \<and> commandDownloadItem (sample_world [] [] []) Item_zero = ([''Item not indexed!''], Exit 1)"
  using download_guards [of "Item_zero\<lparr>Downloaded := True\<rparr>" "sample_world [] [] []"]
        download_guards [of Item_zero "sample_world [] [] []"]
  by (simp add: Item_zero_def)


section \<open>The fold over the catalog\<close>

lemma obind_Return_iff:
  "obind m f = Return y \<longleftrightarrow> (\<exists>x. m = Return x \<and> f x = Return y)"
  by (cases m) simp_all

lemma index_item_Some:
  assumes "index_item w k v = Return (Some item)"
  shows "\<exists>fe version lp.
           GetFileEntryForHost w v = Return (Some fe)
           \<and> ParseVersion (if ZigIndexEntry.Version v = [] then k else ZigIndexEntry.Version v)
               = Return (Inr version)
           \<and> localTarballPathFromUrl w (Tarball fe) = Return lp
           \<and> item = Item_zero\<lparr>Master := (ZigIndexEntry.Version v \<noteq> []), Item.Version := version,
                                Indexed := True, RemoteUrl := Tarball fe, LocalPath := lp\<rparr>"
proof (cases "GetFileEntryForHost w v")
  case (Return fileEntry)
  show ?thesis
  proof (cases fileEntry)
    case None
    with Return assms show ?thesis by (simp add: index_item_def)
  next
    case (Some fe)
    let ?s = "if ZigIndexEntry.Version v = [] then k else ZigIndexEntry.Version v"
    show ?thesis
    proof (cases "ParseVersion ?s")
      case pv: (Return parsed)
      show ?thesis
      proof (cases parsed)
        case (Inl err)
        with Return Some pv assms show ?thesis
          by (simp add: index_item_def Let_def split: if_splits)
      next
        case (Inr version)
        show ?thesis
        proof (cases "localTarballPathFromUrl w (Tarball fe)")
          case lp: (Return lp)
          with Return Some pv Inr assms show ?thesis
            by (auto simp: index_item_def Let_def Item_zero_def split: if_splits)
        qed (use Return Some pv Inr assms in
              \<open>simp_all add: index_item_def Let_def split: if_splits\<close>)
      qed
    qed (use Return Some assms in \<open>simp_all add: index_item_def Let_def split: if_splits\<close>)
  qed
qed (use assms in \<open>simp_all add: index_item_def\<close>)

lemma index_item_fields:
  assumes "index_item w k v = Return (Some item)"
  shows "Indexed item"
    and "ZigIndexEntry.Version v = [] \<Longrightarrow>
           ParseVersion k = Return (Inr (Item.Version item)) \<and> \<not> Master item"
    and "ZigIndexEntry.Version v \<noteq> [] \<Longrightarrow>
           ParseVersion (ZigIndexEntry.Version v) = Return (Inr (Item.Version item)) \<and> Master item"
  using index_item_Some [OF assms] by auto

lemma index_item_descriptor:
  assumes "GetFileEntryForHost w v = Return (Some fe)" "index_item w k v = Return r"
  shows "r \<noteq> None"
proof
  assume "r = None"
  with assms have n: "index_item w k v = Return None" by simp
  let ?s = "if ZigIndexEntry.Version v = [] then k else ZigIndexEntry.Version v"
  show False
  proof (cases "ParseVersion ?s")
    case pv: (Return parsed)
    show ?thesis
    proof (cases parsed)
      case (Inl err)
      with assms(1) pv n show ?thesis by (simp add: index_item_def Let_def split: if_splits)
    next
      case (Inr version)
      with assms(1) pv n show ?thesis
        by (cases "localTarballPathFromUrl w (Tarball fe)")
           (simp_all add: index_item_def Let_def split: if_splits)
    qed
  qed (use assms(1) n in \<open>simp_all add: index_item_def Let_def split: if_splits\<close>)
qed

lemma index_fold_mono:
  "index_fold w index items = Return items' \<Longrightarrow> set items \<subseteq> set items'"
proof (induction index arbitrary: items)
  case Nil
  then show ?case by simp
next
  case (Cons a index)
  obtain k v where a: "a = (k, v)" by (cases a)
  from Cons.prems Cons.IH show ?case unfolding a
    by (fastforce split: outcome.splits option.splits)
qed

lemma index_fold_member:
  "index_fold w index items = Return items' \<Longrightarrow> (k, v) \<in> set index \<Longrightarrow>
   \<exists>r. index_item w k v = Return r \<and> (\<forall>item. r = Some item \<longrightarrow> item \<in> set items')"
proof (induction index arbitrary: items)
  case Nil
  then show ?case by simp
next
  case (Cons a index)
  obtain k' v' where a: "a = (k', v')" by (cases a)
  show ?case
  proof (cases "(k, v) = (k', v')")
    case True
    from Cons.prems(1) show ?thesis unfolding a
      using index_fold_mono [of w index] True
      by (fastforce split: outcome.splits option.splits)
  next
    case False
    with Cons.prems(2) a have "(k, v) \<in> set index" by auto
    with Cons.prems(1) Cons.IH show ?thesis unfolding a
      by (auto split: outcome.splits option.splits)
  qed
qed

lemma index_fold_Indexed:
  "index_fold w index items = Return items' \<Longrightarrow> \<forall>x \<in> set items. Indexed x \<Longrightarrow>
   \<forall>x \<in> set items'. Indexed x"
proof (induction index arbitrary: items)
  case Nil
  then show ?case by simp
next
  case (Cons a index)
  obtain k v where a: "a = (k, v)" by (cases a)
  show ?case
  proof (cases "index_item w k v")
    case (Return r)
    show ?thesis
    proof (cases r)
      case None
      with Return Cons.prems Cons.IH [of items] show ?thesis unfolding a by simp
    next
      case (Some item)
      with Return have "Indexed item" by (auto dest: index_item_fields(1))
      with Some Return Cons.prems Cons.IH [of "items @ [item]"] show ?thesis unfolding a by simp
    qed
  qed (use Cons.prems a in simp_all)
qed

text \<open>
  Claim C1, as the claim states it, fails: the record of the release 0.10.1 has no version
  string of its own, its key supplies the version, and the item is not the master; the
  record under the key \<^verbatim>\<open>master\<close> has a version string, and the item is the master.
\<close>

theorem index_master_counterexample:
  "ZigIndexEntry.Version (snd release_0_10_1) = []
   \<and> index_item (sample_world [] [] []) (fst release_0_10_1) (snd release_0_10_1) =
     Return (Some
       \<lparr>Item.Version = \<lparr>Major = 0, Minor = 10, Patch = 1, Dev = False, Build = 0, Commit = []\<rparr>,
        Downloaded = False, Current = False, Indexed = True, Master = False,
        LocalPath = ''/home/u/.zig-toolchain/tarballs/zig-linux-x86_64-0.10.1.tar.xz'',
        RemoteUrl = ''https://ziglang.org/download/0.10.1/zig-linux-x86_64-0.10.1.tar.xz''\<rparr>)
   \<and> ZigIndexEntry.Version (snd master_0_12_0) = ''0.12.0-dev.100+abcdef12''
   \<and> index_item (sample_world [] [] []) (fst master_0_12_0) (snd master_0_12_0) =
     Return (Some
       \<lparr>Item.Version = \<lparr>Major = 0, Minor = 12, Patch = 0, Dev = True, Build = 100,
                        Commit = ''abcdef12''\<rparr>,
        Downloaded = False, Current = False, Indexed = True, Master = True,
        LocalPath = ''/home/u/.zig-toolchain/tarballs/zig-linux-x86_64-0.12.0-dev.100+abcdef12.tar.xz'',
        RemoteUrl = ''https://ziglang.org/builds/zig-linux-x86_64-0.12.0-dev.100+abcdef12.tar.xz''\<rparr>)"
  by code_simp

text \<open>
  Claim C1, amended. When the fold over the catalog returns, every record of the catalog
  that has a download descriptor for the host has its item in the inventory, and: if the
  record's own version string is empty, the catalog key is the string that was parsed into
  the item's version and the item has \<open>master = false\<close>; if the record's version string is
  not empty, that string was parsed into the item's version and the item has
  \<open>master = true\<close>.
\<close>

theorem index_fold_master:
  "index_fold w index items = Return items' \<and> (k, v) \<in> set index
     \<and> GetFileEntryForHost w v = Return (Some fe) \<longrightarrow>
   (\<exists>item \<in> set items'. index_item w k v = Return (Some item) \<and> Indexed item
      \<and> (ZigIndexEntry.Version v = [] \<longrightarrow>
            ParseVersion k = Return (Inr (Item.Version item)) \<and> \<not> Master item)
      \<and> (ZigIndexEntry.Version v \<noteq> [] \<longrightarrow>
            ParseVersion (ZigIndexEntry.Version v) = Return (Inr (Item.Version item))
            \<and> Master item))"
proof
  assume a: "index_fold w index items = Return items' \<and> (k, v) \<in> set index
     \<and> GetFileEntryForHost w v = Return (Some fe)"
  then obtain r where r: "index_item w k v = Return r" "\<forall>item. r = Some item \<longrightarrow> item \<in> set items'"
    using index_fold_member [of w index items items' k v] by blast
  with a obtain item where item: "r = Some item" using index_item_descriptor by blast
  with r have "item \<in> set items'" "index_item w k v = Return (Some item)" by simp_all
  then show "\<exists>item \<in> set items'. index_item w k v = Return (Some item) \<and> Indexed item
      \<and> (ZigIndexEntry.Version v = [] \<longrightarrow>
            ParseVersion k = Return (Inr (Item.Version item)) \<and> \<not> Master item)
      \<and> (ZigIndexEntry.Version v \<noteq> [] \<longrightarrow>
            ParseVersion (ZigIndexEntry.Version v) = Return (Inr (Item.Version item))
            \<and> Master item)"
    using index_item_fields [of w k v item] by blast
qed


theorem index_fold_master_witness:
  "\<exists>item \<in> set
      [\<lparr>Item.Version = \<lparr>Major = 0, Minor = 10, Patch = 1, Dev = False, Build = 0, Commit = []\<rparr>,
        Downloaded = False, Current = False, Indexed = True, Master = False,
        LocalPath = ''/home/u/.zig-toolchain/tarballs/zig-linux-x86_64-0.10.1.tar.xz'',
        RemoteUrl = ''https://ziglang.org/download/0.10.1/zig-linux-x86_64-0.10.1.tar.xz''\<rparr>,
       \<lparr>Item.Version = \<lparr>Major = 0, Minor = 12, Patch = 0, Dev = True, Build = 100,
                        Commit = ''abcdef12''\<rparr>,
        Downloaded = False, Current = False, Indexed = True, Master = True,
        LocalPath = ''/home/u/.zig-toolchain/tarballs/zig-linux-x86_64-0.12.0-dev.100+abcdef12.tar.xz'',
        RemoteUrl = ''https://ziglang.org/builds/zig-linux-x86_64-0.12.0-dev.100+abcdef12.tar.xz''\<rparr>].
     index_item (sample_world [] [] []) (fst release_0_10_1) (snd release_0_10_1)
       = Return (Some item)
     \<and> Indexed item
     \<and> ParseVersion (fst release_0_10_1) = Return (Inr (Item.Version item))
     \<and> \<not> Master item"
proof -
  let ?items =
     "[\<lparr>Item.Version = \<lparr>Major = 0, Minor = 10, Patch = 1, Dev = False, Build = 0, Commit = []\<rparr>,
        Downloaded = False, Current = False, Indexed = True, Master = False,
        LocalPath = ''/home/u/.zig-toolchain/tarballs/zig-linux-x86_64-0.10.1.tar.xz'',
        RemoteUrl = ''https://ziglang.org/download/0.10.1/zig-linux-x86_64-0.10.1.tar.xz''\<rparr>,
       \<lparr>Item.Version = \<lparr>Major = 0, Minor = 12, Patch = 0, Dev = True, Build = 100,
                        Commit = ''abcdef12''\<rparr>,
        Downloaded = False, Current = False, Indexed = True, Master = True,
        LocalPath = ''/home/u/.zig-toolchain/tarballs/zig-linux-x86_64-0.12.0-dev.100+abcdef12.tar.xz'',
        RemoteUrl = ''https://ziglang.org/builds/zig-linux-x86_64-0.12.0-dev.100+abcdef12.tar.xz''\<rparr>]"
  have fold: "index_fold (sample_world [] [] []) [release_0_10_1, master_0_12_0] [] = Return ?items"
    by code_simp
  have mem: "(fst release_0_10_1, snd release_0_10_1) \<in> set [release_0_10_1, master_0_12_0]"
    by simp
  have desc: "GetFileEntryForHost (sample_world [] [] []) (snd release_0_10_1) =
      Return (Some \<lparr>Tarball = ''https://ziglang.org/download/0.10.1/zig-linux-x86_64-0.10.1.tar.xz'',
                    Shasum = [], Size = []\<rparr>)"
    by code_simp
  have empty: "ZigIndexEntry.Version (snd release_0_10_1) = []"
    by code_simp
  show ?thesis
    using index_fold_master
      [of "sample_world [] [] []" "[release_0_10_1, master_0_12_0]" "[]" ?items
          "fst release_0_10_1" "snd release_0_10_1"
          "\<lparr>Tarball = ''https://ziglang.org/download/0.10.1/zig-linux-x86_64-0.10.1.tar.xz'',
            Shasum = [], Size = []\<rparr>"]
      fold mem desc empty
    by blast
qed

section \<open>The fold over the tarball directory\<close>

lemma GetItemByVersion_Some:
  "GetItemByVersion items v = Some i \<Longrightarrow>
   i < length items \<and> Version_equal (Item.Version (items ! i)) v"
proof (induction items arbitrary: i)
  case Nil
  then show ?case by simp
next
  case (Cons x items)
  show ?case
  proof (cases "Version_equal (Item.Version x) v")
    case True
    with Cons.prems show ?thesis by simp
  next
    case False
    with Cons.prems obtain j where "GetItemByVersion items v = Some j" "i = Suc j" by auto
    with Cons.IH show ?thesis by simp
  qed
qed

lemma GetItemByVersion_member:
  "x \<in> set items \<Longrightarrow> Version_equal (Item.Version x) v \<Longrightarrow> \<exists>i. GetItemByVersion items v = Some i"
  by (induction items) auto

lemma GetItemByVersion_cong:
  assumes "Version_equal u v"
  shows "GetItemByVersion items u = GetItemByVersion items v"
proof -
  have "Version_equal a u = Version_equal a v" for a
    using assms Version_equal_trans Version_equal_sym by blast
  then show ?thesis by (induction items) simp_all
qed

lemma GetItemByVersion_update:
  "j < length items \<Longrightarrow> Item.Version x = Item.Version (items ! j) \<Longrightarrow>
   GetItemByVersion (items[j := x]) v = GetItemByVersion items v"
proof (induction items arbitrary: j)
  case Nil
  then show ?case by simp
next
  case (Cons a items)
  then show ?case by (cases j) simp_all
qed

lemma GetItemByVersion_append:
  "GetItemByVersion items v = Some i \<Longrightarrow> GetItemByVersion (items @ ys) v = Some i"
  by (induction items arbitrary: i) (auto split: if_splits)

lemma tarball_item_step:
  assumes step: "tarball_item w d items = Return items'"
    and look: "GetItemByVersion items v = Some i"
  shows "GetItemByVersion items' v = Some i"
    and "Indexed (items' ! i) = Indexed (items ! i)"
    and "tarball_of d v \<Longrightarrow>
           Downloaded (items' ! i) \<and> localDirPath w [''tarballs'', Name d] = Return (LocalPath (items' ! i))"
    and "\<not> tarball_of d v \<Longrightarrow> items' ! i = items ! i"
proof -
  from look have i: "i < length items" "Version_equal (Item.Version (items ! i)) v"
    using GetItemByVersion_Some by blast+
  have "GetItemByVersion items' v = Some i \<and> Indexed (items' ! i) = Indexed (items ! i)
     \<and> (tarball_of d v \<longrightarrow>
           Downloaded (items' ! i) \<and> localDirPath w [''tarballs'', Name d] = Return (LocalPath (items' ! i)))
     \<and> (\<not> tarball_of d v \<longrightarrow> items' ! i = items ! i)"
  proof (cases "Ext (Name d) = ''.xz''")
    case False
    with step look show ?thesis by (simp add: tarball_item_def tarball_of_def)
  next
    case xz: True
    from step xz obtain u where u: "tarball_version (Name d) = Return u"
      by (cases "tarball_version (Name d)") (simp_all add: tarball_item_def)
    have of_iff: "tarball_of d v \<longleftrightarrow> Version_equal u v"
      using xz u by (simp add: tarball_of_def)
    show ?thesis
    proof (cases "GetItemByVersion items u")
      case None
      from step xz u None obtain lp where lp: "localDirPath w [''tarballs'', Name d] = Return lp"
        and items': "items' = items @ [Item_zero\<lparr>Downloaded := True, Indexed := False,
                                                   LocalPath := lp, Item.Version := u\<rparr>]"
        by (cases "localDirPath w [''tarballs'', Name d]") (auto simp: tarball_item_def Let_def)
      have "\<not> Version_equal u v"
        using GetItemByVersion_cong [of u v items] None look by auto
      then show ?thesis
        using of_iff i look by (simp add: items' GetItemByVersion_append nth_append)
    next
      case (Some j)
      from step xz u Some obtain lp where lp: "localDirPath w [''tarballs'', Name d] = Return lp"
        and items': "items' = items[j := (items ! j)\<lparr>Downloaded := True, LocalPath := lp\<rparr>]"
        by (cases "localDirPath w [''tarballs'', Name d]") (auto simp: tarball_item_def Let_def)
      from Some have j: "j < length items" "Version_equal (Item.Version (items ! j)) u"
        using GetItemByVersion_Some by blast+
      have g: "GetItemByVersion items' v = Some i"
        unfolding items' using j(1) look by (simp add: GetItemByVersion_update)
      show ?thesis
      proof (cases "Version_equal u v")
        case True
        then have "j = i" using GetItemByVersion_cong [of u v items] Some look by simp
        then show ?thesis using g of_iff True i lp by (simp add: items')
      next
        case False
        have "j \<noteq> i"
        proof
          assume "j = i"
          with j(2) i(2) have "Version_equal u v"
            using Version_equal_sym Version_equal_trans by blast
          with False show False ..
        qed
        then show ?thesis using g of_iff False i by (simp add: items')
      qed
    qed
  qed
  then show "GetItemByVersion items' v = Some i"
    and "Indexed (items' ! i) = Indexed (items ! i)"
    and "tarball_of d v \<Longrightarrow>
           Downloaded (items' ! i) \<and> localDirPath w [''tarballs'', Name d] = Return (LocalPath (items' ! i))"
    and "\<not> tarball_of d v \<Longrightarrow> items' ! i = items ! i"
    by blast+
qed

lemma tarball_fold_keep:
  "tarball_fold w ds items = Return items' \<Longrightarrow> GetItemByVersion items v = Some i \<Longrightarrow>
   GetItemByVersion items' v = Some i \<and> Indexed (items' ! i) = Indexed (items ! i)
   \<and> ((\<forall>d \<in> set ds. \<not> tarball_of d v) \<longrightarrow> items' ! i = items ! i)"
proof (induction ds arbitrary: items)
  case Nil
  then show ?case by simp
next
  case (Cons d ds)
  from Cons.prems(1) obtain mid where mid: "tarball_item w d items = Return mid"
    and rest: "tarball_fold w ds mid = Return items'"
    by (cases "tarball_item w d items") simp_all
  note s = tarball_item_step [OF mid Cons.prems(2)]
  from Cons.IH [OF rest s(1)] s(2) s(4) show ?case by auto
qed

lemma tarball_fold_append:
  "tarball_fold w (xs @ ys) items = obind (tarball_fold w xs items) (tarball_fold w ys)"
  by (induction xs arbitrary: items) (simp_all split: outcome.splits)

lemma tarball_fold_last:
  assumes fold: "tarball_fold w (pre @ d # post) items = Return items'"
    and look: "GetItemByVersion items v = Some i"
    and d: "tarball_of d v"
    and post: "\<forall>d' \<in> set post. \<not> tarball_of d' v"
  shows "GetItemByVersion items' v = Some i \<and> Indexed (items' ! i) = Indexed (items ! i)
     \<and> Downloaded (items' ! i)
     \<and> localDirPath w [''tarballs'', Name d] = Return (LocalPath (items' ! i))"
proof -
  from fold obtain s1 where s1: "tarball_fold w pre items = Return s1"
    and r1: "tarball_fold w (d # post) s1 = Return items'"
    unfolding tarball_fold_append by (cases "tarball_fold w pre items") simp_all
  from r1 obtain s2 where s2: "tarball_item w d s1 = Return s2"
    and r2: "tarball_fold w post s2 = Return items'"
    by (cases "tarball_item w d s1") simp_all
  note k1 = tarball_fold_keep [OF s1 look]
  from k1 have l1: "GetItemByVersion s1 v = Some i" by simp
  note st = tarball_item_step [OF s2 l1]
  note k2 = tarball_fold_keep [OF r2 st(1)]
  from k2 post have same: "items' ! i = s2 ! i" by simp
  from st(3) [OF d] st(2) k1 k2 show ?thesis unfolding same by simp
qed

lemma current_fold_keep:
  "current_fold ds items = Return items' \<Longrightarrow>
   length items' = length items
   \<and> (\<forall>i < length items. Item.Version (items' ! i) = Item.Version (items ! i)
         \<and> Indexed (items' ! i) = Indexed (items ! i)
         \<and> Downloaded (items' ! i) = Downloaded (items ! i)
         \<and> LocalPath (items' ! i) = LocalPath (items ! i))"
proof (induction ds)
  case Nil
  then show ?case by simp
next
  case (Cons e ds)
  show ?case
  proof (cases "HasPrefix (Name e) ''zig'' \<and> IsDir e")
    case False
    with Cons show ?thesis by simp
  next
    case True
    from Cons.prems True obtain tl3 where
      tl3: "slice_from 3 (Split (Name e) CHR ''-'') = Return tl3"
      by (cases "slice_from 3 (Split (Name e) CHR ''-'')") (simp_all add: Let_def)
    from Cons.prems True tl3 obtain parsed where
      parsed: "ParseVersion (Join tl3 ''-'') = Return parsed"
      by (cases "ParseVersion (Join tl3 ''-'')") (simp_all add: Let_def)
    from Cons.prems True tl3 parsed obtain version where
      version: "parsed = Inr version"
      by (cases parsed) (simp_all add: Let_def)
    from Cons.prems True tl3 parsed version obtain j where
      "items' = items[j := (items ! j)\<lparr>Current := True\<rparr>]"
      by (cases "GetItemByVersion items version") (auto simp: Let_def)
    then show ?thesis
      by (cases "j < length items") (auto simp: nth_list_update)
  qed
qed


lemma set_insert_by: "set (insert_by lt x xs) = insert x (set xs)"
  by (induction xs) auto

lemma set_sort_by: "set (sort_by lt xs) = set xs"
  unfolding sort_by_def by (induction xs) (simp_all add: set_insert_by)

text \<open>
  Claim C5. Let the reconciliation return an inventory, \<^verbatim>\<open>sort.Slice\<close> rearranging the
  slice without adding or losing an element. For every record of the catalog with a download
  descriptor for the host, whose item has the version \<open>v\<close>, and every entry \<open>d\<close> of the
  tarball directory that is a tarball of \<open>v\<close>, the last such entry of the listing: the
  inventory has an item of the version \<open>v\<close> that is indexed and downloaded and whose local
  path is the path of \<open>d\<close> in the tarball directory, \<^verbatim>\<open>localDirPath("tarballs", name)\<close>,
  whatever path was derived from the URL.
\<close>

theorem local_tarball_precedence:
  assumes rec: "reconcile w [] = Return inventory"
    and srt: "\<forall>lt xs. set (sort_Slice w lt xs) = set xs"
    and idx: "FetchIndex w = Inr index" "(k, e) \<in> set index"
             "index_item w k e = Return (Some it)"
    and dir: "read_dir w ''tarballs'' = Return (pre @ d # post)"
    and d: "tarball_of d (Item.Version it)"
    and post: "\<forall>d' \<in> set post. \<not> tarball_of d' (Item.Version it)"
  shows "\<exists>item \<in> set inventory.
           Version_equal (Item.Version item) (Item.Version it)
           \<and> Indexed item \<and> Downloaded item
           \<and> localDirPath w [''tarballs'', Name d] = Return (LocalPath item)"
proof -
  let ?v = "Item.Version it"
  from rec obtain s3 where folds: "reconcile_folds w [] = Return s3"
    and inv: "inventory = sort_Slice w sort_less s3"
    by (auto simp: reconcile_def obind_Return_iff)
  from folds idx(1) dir obtain s1 s2 cur where
    s1: "index_fold w index [] = Return s1"
    and s2: "tarball_fold w (pre @ d # post) s1 = Return s2"
    and cur: "read_dir w ''current'' = Return cur"
    and s3: "current_fold cur s2 = Return s3"
    by (auto simp: reconcile_folds_def obind_Return_iff)
  from index_fold_member [OF s1 idx(2)] idx(3) have "it \<in> set s1" by simp
  moreover have "Version_equal ?v ?v" by (simp add: Version_equal_iff)
  ultimately obtain i where look: "GetItemByVersion s1 ?v = Some i"
    using GetItemByVersion_member by blast
  then have i: "i < length s1" using GetItemByVersion_Some by blast
  have "Indexed (s1 ! i)" using index_fold_Indexed [OF s1] i by simp
  with tarball_fold_last [OF s2 look d post]
  have t: "GetItemByVersion s2 ?v = Some i" "Indexed (s2 ! i)" "Downloaded (s2 ! i)"
    "localDirPath w [''tarballs'', Name d] = Return (LocalPath (s2 ! i))"
    by simp_all
  from t(1) have i2: "i < length s2" "Version_equal (Item.Version (s2 ! i)) ?v"
    using GetItemByVersion_Some by blast+
  from current_fold_keep [OF s3] i2(1)
  have c: "i < length s3" "Item.Version (s3 ! i) = Item.Version (s2 ! i)"
    "Indexed (s3 ! i) = Indexed (s2 ! i)" "Downloaded (s3 ! i) = Downloaded (s2 ! i)"
    "LocalPath (s3 ! i) = LocalPath (s2 ! i)"
    by simp_all
  from c(1) have "s3 ! i \<in> set s3" by simp
  then have "s3 ! i \<in> set inventory" using srt inv by simp
  then show ?thesis using t i2(2) c by (intro bexI [of _ "s3 ! i"]) simp_all
qed

theorem local_tarball_precedence_witness:
  "\<exists>item \<in> set
      [\<lparr>Item.Version = \<lparr>Major = 0, Minor = 10, Patch = 1, Dev = False, Build = 0, Commit = []\<rparr>,
        Downloaded = True, Current = False, Indexed = True, Master = False,
        LocalPath = ''/home/u/.zig-toolchain/tarballs/zig-macos-aarch64-0.10.1.tar.xz'',
        RemoteUrl = ''https://ziglang.org/download/0.10.1/zig-linux-x86_64-0.10.1.tar.xz''\<rparr>].
     Version_equal (Item.Version item)
       \<lparr>Major = 0, Minor = 10, Patch = 1, Dev = False, Build = 0, Commit = []\<rparr>
     \<and> Indexed item \<and> Downloaded item
     \<and> LocalPath item = ''/home/u/.zig-toolchain/tarballs/zig-macos-aarch64-0.10.1.tar.xz''
     \<and> LocalPath item \<noteq> ''/home/u/.zig-toolchain/tarballs/zig-linux-x86_64-0.10.1.tar.xz''"
proof -
  let ?d = "\<lparr>Name = ''zig-macos-aarch64-0.10.1.tar.xz'', IsDir = False\<rparr>"
  let ?w = "sample_world [release_0_10_1] [\<lparr>Name = ''notes.txt'', IsDir = False\<rparr>, ?d] []"
  let ?it = "\<lparr>Item.Version = \<lparr>Major = 0, Minor = 10, Patch = 1, Dev = False, Build = 0, Commit = []\<rparr>,
        Downloaded = False, Current = False, Indexed = True, Master = False,
        LocalPath = ''/home/u/.zig-toolchain/tarballs/zig-linux-x86_64-0.10.1.tar.xz'',
        RemoteUrl = ''https://ziglang.org/download/0.10.1/zig-linux-x86_64-0.10.1.tar.xz''\<rparr>"
  let ?inventory = "[\<lparr>Item.Version = \<lparr>Major = 0, Minor = 10, Patch = 1, Dev = False, Build = 0, Commit = []\<rparr>,
        Downloaded = True, Current = False, Indexed = True, Master = False,
        LocalPath = ''/home/u/.zig-toolchain/tarballs/zig-macos-aarch64-0.10.1.tar.xz'',
        RemoteUrl = ''https://ziglang.org/download/0.10.1/zig-linux-x86_64-0.10.1.tar.xz''\<rparr>]"
  have rec: "reconcile ?w [] = Return ?inventory" by code_simp
  have srt: "\<forall>lt xs. set (sort_Slice ?w lt xs) = set xs"
    by (simp add: sample_world_def set_sort_by)
  have idx: "FetchIndex ?w = Inr [release_0_10_1]" by (simp add: sample_world_def)
  have mem: "(fst release_0_10_1, snd release_0_10_1) \<in> set [release_0_10_1]" by simp
  have it: "index_item ?w (fst release_0_10_1) (snd release_0_10_1) = Return (Some ?it)"
    by code_simp
  have dir: "read_dir ?w ''tarballs'' = Return ([\<lparr>Name = ''notes.txt'', IsDir = False\<rparr>] @ ?d # [])"
    by code_simp
  have d: "tarball_of ?d (Item.Version ?it)" by code_simp
  have post: "\<forall>d' \<in> set []. \<not> tarball_of d' (Item.Version ?it)" by simp
  have path: "localDirPath ?w [''tarballs'', Name ?d] =
      Return ''/home/u/.zig-toolchain/tarballs/zig-macos-aarch64-0.10.1.tar.xz''"
    by code_simp
  show ?thesis
    using local_tarball_precedence [OF rec srt idx mem it dir d post] unfolding path
    by simp
qed


section \<open>The current install\<close>

text \<open>
  Claim C2 does not hold of the reconciliation. On a machine whose tarball directory is
  empty and whose directory of the current install holds \<^verbatim>\<open>zig-linux-x86_64-0.10.1\<close>, with
  the release 0.10.1 in the catalog, the item of the inventory is indexed, current and not
  downloaded: the lookup of the current version only asks for an item of that version.
\<close>

theorem current_without_tarball:
  "reconcile
     (sample_world [release_0_10_1] [] [\<lparr>Name = ''zig-linux-x86_64-0.10.1'', IsDir = True\<rparr>]) []
   = Return
      [\<lparr>Item.Version = \<lparr>Major = 0, Minor = 10, Patch = 1, Dev = False, Build = 0, Commit = []\<rparr>,
        Downloaded = False, Current = True, Indexed = True, Master = False,
        LocalPath = ''/home/u/.zig-toolchain/tarballs/zig-linux-x86_64-0.10.1.tar.xz'',
        RemoteUrl = ''https://ziglang.org/download/0.10.1/zig-linux-x86_64-0.10.1.tar.xz''\<rparr>]"
  by code_simp


end
